theory Spec2Isabelle
  imports Complex_Main
begin

section \<open>The Timer class of emtime.py\<close>

text \<open>
  The module holds one class, \<^verbatim>\<open>Timer\<close>, over \<^verbatim>\<open>time.perf_counter()\<close>.
  The embedding makes the two effects of the code explicit.

  \<^item> The clock. Every call of \<^verbatim>\<open>time.perf_counter()\<close> is a fresh reading. A clock
    is the sequence of the readings the process obtains, \<open>clk 0\<close>, \<open>clk 1\<close>, ...; the
    field \<open>reads\<close> of the state counts the readings taken so far, so that two
    readings inside one operation are two different values of \<open>clk\<close>.
  \<^item> The object. The attributes of \<^verbatim>\<open>self\<close> are the fields of a record which
    every operation takes and returns.

  Python's \<^verbatim>\<open>float\<close> is idealised as \<open>real\<close>: arithmetic is exact, so the
  theorems below are about the arithmetic the code writes down, not about its
  rounding, and a property that holds only because the arithmetic is exact is not
  stated of the code. What a float operation does to the
  control flow is kept. A division by zero raises \<^verbatim>\<open>ZeroDivisionError\<close>. The
  quotient \<^verbatim>\<open>elapsed / interval\<close> is handed to \<^verbatim>\<open>int()\<close>, which raises on a float
  that is not finite; so that quotient is a \<open>pyfloat\<close>, an infinity when it lies beyond
  the range of a double.
\<close>

type_synonym clock = "nat \<Rightarrow> real"

datatype error = ZeroDivisionError | OverflowError | ValueError

datatype pyfloat = Fin real | PInf | NInf | NaN

record timer =
  interval :: real      \<comment> \<open>\<^verbatim>\<open>self._interval\<close>\<close>
  t0 :: real            \<comment> \<open>\<^verbatim>\<open>self._t0\<close>, the spec's \<open>start_time\<close>\<close>
  t_last :: real        \<comment> \<open>\<^verbatim>\<open>self._t_last\<close>, the spec's \<open>last_delta_time\<close>\<close>
  t_last_tick :: real   \<comment> \<open>\<^verbatim>\<open>self._t_last_tick\<close>, the spec's \<open>last_tick_time\<close>\<close>
  is_paused :: bool     \<comment> \<open>\<^verbatim>\<open>self._is_paused\<close>\<close>
  has_ticked :: bool    \<comment> \<open>\<^verbatim>\<open>self._has_ticked\<close>\<close>
  accum_time :: real    \<comment> \<open>\<^verbatim>\<open>self._accum_time\<close>, the spec's \<open>accumulated_time\<close>\<close>
  reads :: nat          \<comment> \<open>number of clock readings taken so far\<close>

subsection \<open>Primitives\<close>

definition perf_counter :: "clock \<Rightarrow> timer \<Rightarrow> real \<times> timer" where
  "perf_counter clk self = (clk (reads self), self\<lparr>reads := reads self + 1\<rparr>)"

definition bind_res :: "error + 'a \<Rightarrow> ('a \<Rightarrow> error + 'b) \<Rightarrow> error + 'b" where
  "bind_res m f = (case m of Inl e \<Rightarrow> Inl e | Inr x \<Rightarrow> f x)"

definition py_floordiv :: "real \<Rightarrow> real \<Rightarrow> error + real" where
  \<comment> \<open>\<^verbatim>\<open>a // b\<close> on floats\<close>
  "py_floordiv a b = (if b = 0 then Inl ZeroDivisionError else Inr (of_int \<lfloor>a / b\<rfloor>))"

definition dbl_overflow :: real where
  \<comment> \<open>the least magnitude that rounds to an infinity: the largest double,
      \<open>2 ^ 1024 - 2 ^ 971\<close>, plus half a unit in its last place\<close>
  "dbl_overflow = 2 ^ 1024 - 2 ^ 970"

definition float_range :: "real \<Rightarrow> pyfloat" where
  \<comment> \<open>the float an exact result becomes, as far as its range goes\<close>
  "float_range x =
     (if dbl_overflow \<le> x then PInf else if x \<le> - dbl_overflow then NInf else Fin x)"

definition py_truediv :: "real \<Rightarrow> real \<Rightarrow> error + pyfloat" where
  \<comment> \<open>\<^verbatim>\<open>a / b\<close> on floats: raises on a zero divisor, overflows to an infinity\<close>
  "py_truediv a b = (if b = 0 then Inl ZeroDivisionError else Inr (float_range (a / b)))"

fun py_int :: "pyfloat \<Rightarrow> error + int" where
  \<comment> \<open>\<^verbatim>\<open>int(x)\<close> on a float: truncation toward zero; raises on an infinity and on a nan\<close>
  "py_int (Fin x) = Inr (if 0 \<le> x then \<lfloor>x\<rfloor> else \<lceil>x\<rceil>)"
| "py_int PInf = Inl OverflowError"
| "py_int NInf = Inl OverflowError"
| "py_int NaN = Inl ValueError"

subsection \<open>The constructor and the operations\<close>

definition Timer_init :: "clock \<Rightarrow> real \<Rightarrow> bool \<Rightarrow> timer" where
  \<comment> \<open>\<^verbatim>\<open>Timer.__init__\<close>: three readings of the clock, no check of \<open>interval\<close>\<close>
  "Timer_init clk iv paused =
     \<lparr>interval = iv, t0 = clk 0, t_last = clk 1, t_last_tick = clk 2,
      is_paused = paused, has_ticked = False, accum_time = 0, reads = 3\<rparr>"

definition tick_delta :: "clock \<Rightarrow> timer \<Rightarrow> error + (real \<times> timer)" where
  "tick_delta clk self =
     (let (now, s1) = perf_counter clk self;
          tick_delta = now - t_last_tick s1
      in bind_res
           (if tick_delta > interval s1
            then (let s2 = s1\<lparr>has_ticked := True\<rparr>
                  in bind_res (py_floordiv tick_delta (interval s2))
                       (\<lambda>q. Inr (s2\<lparr>t_last_tick := t_last_tick s2 + q * interval s2\<rparr>)))
            else Inr s1)
           (\<lambda>s3. let (now', s4) = perf_counter clk s3
                 in Inr (now' - t_last_tick s4, s4)))"

definition tick :: "clock \<Rightarrow> timer \<Rightarrow> error + (bool \<times> timer)" where
  "tick clk self =
     bind_res (tick_delta clk self)
       (\<lambda>(_, s1). if has_ticked s1 then Inr (True, s1\<lparr>has_ticked := False\<rparr>)
                  else Inr (False, s1))"

definition elapsed :: "clock \<Rightarrow> timer \<Rightarrow> error + (real \<times> timer)" where
  "elapsed clk self =
     (if is_paused self then Inr (accum_time self, self)
      else bind_res (tick clk self)
             (\<lambda>(_, s1). let (now, s2) = perf_counter clk s1
                        in Inr ((now - t0 s2) + accum_time s2, s2)))"

definition elapsed_ticks :: "clock \<Rightarrow> timer \<Rightarrow> error + (pyfloat \<times> timer)" where
  "elapsed_ticks clk self =
     bind_res (elapsed clk self)
       (\<lambda>(e, s1). bind_res (py_truediv e (interval s1)) (\<lambda>q. Inr (q, s1)))"

definition elapsed_ticks_int :: "clock \<Rightarrow> timer \<Rightarrow> error + (int \<times> timer)" where
  "elapsed_ticks_int clk self =
     bind_res (elapsed_ticks clk self)
       (\<lambda>(q, s1). bind_res (py_int q) (\<lambda>n. Inr (n, s1)))"

definition delta :: "clock \<Rightarrow> timer \<Rightarrow> real \<times> timer" where
  "delta clk self =
     (let (t, s1) = perf_counter clk self;
          dt = t - t_last s1
      in (dt, s1\<lparr>t_last := t\<rparr>))"

definition reset :: "clock \<Rightarrow> timer \<Rightarrow> timer" where
  "reset clk self = (let (now, s1) = perf_counter clk self in s1\<lparr>t0 := now\<rparr>)"

definition pause :: "clock \<Rightarrow> timer \<Rightarrow> error + timer" where
  \<comment> \<open>\<^verbatim>\<open>self._accum_time += self.elapsed\<close> loads the old value, then reads the property\<close>
  "pause clk self =
     (let old = accum_time self
      in bind_res (elapsed clk self)
           (\<lambda>(e, s1). Inr (s1\<lparr>accum_time := old + e, is_paused := True\<rparr>)))"

definition resume :: "clock \<Rightarrow> timer \<Rightarrow> timer" where
  "resume clk self =
     (let s1 = self\<lparr>is_paused := False\<rparr>;
          (now, s2) = perf_counter clk s1;
          s3 = s2\<lparr>t0 := now\<rparr>
      in reset clk s3)"

subsection \<open>Sequences of calls\<close>

text \<open>
  A client of the class is a sequence of calls on one object. \<open>call\<close> performs one of
  them and returns what the client sees; \<open>run\<close> performs a list of them and stops at
  the first exception, as the interpreter would.
\<close>

datatype op = Elapsed | ElapsedTicksInt | ElapsedTicks | TickDelta | Tick | Delta
  | Reset | Pause | Resume

datatype val = VFloat real | VInf | VNegInf | VNaN | VInt int | VBool bool | VNone

fun float_val :: "pyfloat \<Rightarrow> val" where
  "float_val (Fin x) = VFloat x"
| "float_val PInf = VInf"
| "float_val NInf = VNegInf"
| "float_val NaN = VNaN"

fun call :: "clock \<Rightarrow> op \<Rightarrow> timer \<Rightarrow> error + (val \<times> timer)" where
  "call clk Elapsed s = bind_res (elapsed clk s) (\<lambda>(x, s'). Inr (VFloat x, s'))"
| "call clk ElapsedTicksInt s = bind_res (elapsed_ticks_int clk s) (\<lambda>(x, s'). Inr (VInt x, s'))"
| "call clk ElapsedTicks s = bind_res (elapsed_ticks clk s) (\<lambda>(x, s'). Inr (float_val x, s'))"
| "call clk TickDelta s = bind_res (tick_delta clk s) (\<lambda>(x, s'). Inr (VFloat x, s'))"
| "call clk Tick s = bind_res (tick clk s) (\<lambda>(x, s'). Inr (VBool x, s'))"
| "call clk Delta s = (let (x, s') = delta clk s in Inr (VFloat x, s'))"
| "call clk Reset s = Inr (VNone, reset clk s)"
| "call clk Pause s = bind_res (pause clk s) (\<lambda>s'. Inr (VNone, s'))"
| "call clk Resume s = Inr (VNone, resume clk s)"

fun run :: "clock \<Rightarrow> op list \<Rightarrow> timer \<Rightarrow> error + (val list \<times> timer)" where
  "run clk [] s = Inr ([], s)"
| "run clk (c # cs) s =
     bind_res (call clk c s)
       (\<lambda>(v, s'). bind_res (run clk cs s') (\<lambda>(vs, s''). Inr (v # vs, s'')))"

subsection \<open>Closed forms and invariants used in the statements\<close>

text \<open>
  \<open>ticked_state\<close> is the state \<open>tick_delta\<close> leaves on a timer whose interval is
  not zero (lemma \<open>tick_delta_closed\<close> below): the boundary check on the first
  reading, and two readings consumed.
\<close>

definition ticked_state :: "clock \<Rightarrow> timer \<Rightarrow> timer" where
  "ticked_state clk s =
     (let raw = clk (reads s) - t_last_tick s
      in if raw > interval s
         then s\<lparr>has_ticked := True,
                t_last_tick := t_last_tick s + of_int \<lfloor>raw / interval s\<rfloor> * interval s,
                reads := reads s + 2\<rparr>
         else s\<lparr>reads := reads s + 2\<rparr>)"

text \<open>
  The invariant of the reachable states under a monotonic clock: the banked time is
  not negative, and the origin of the running segment is a reading of the past.
\<close>

definition timer_inv :: "clock \<Rightarrow> timer \<Rightarrow> bool" where
  "timer_inv clk s \<longleftrightarrow> 0 \<le> accum_time s \<and> (\<forall>n. reads s \<le> n \<longrightarrow> t0 s \<le> clk n)"

section \<open>Basic facts\<close>

lemma bind_res_Inr [simp]: "bind_res (Inr x) f = f x"
  by (simp add: bind_res_def)

lemma bind_res_Inl [simp]: "bind_res (Inl e) f = Inl e"
  by (simp add: bind_res_def)

lemma py_floordiv_nonzero [simp]: "b \<noteq> 0 \<Longrightarrow> py_floordiv a b = Inr (of_int \<lfloor>a / b\<rfloor>)"
  by (simp add: py_floordiv_def)

lemma py_truediv_nonzero [simp]: "b \<noteq> 0 \<Longrightarrow> py_truediv a b = Inr (float_range (a / b))"
  by (simp add: py_truediv_def)

lemma tick_delta_closed:
  "interval s \<noteq> 0 \<Longrightarrow>
   tick_delta clk s =
     Inr (clk (reads s + 1) - t_last_tick (ticked_state clk s), ticked_state clk s)"
  by (simp add: tick_delta_def perf_counter_def ticked_state_def Let_def)

lemma ticked_state_fields [simp]:
  "interval (ticked_state clk s) = interval s"
  "t0 (ticked_state clk s) = t0 s"
  "t_last (ticked_state clk s) = t_last s"
  "is_paused (ticked_state clk s) = is_paused s"
  "accum_time (ticked_state clk s) = accum_time s"
  "reads (ticked_state clk s) = reads s + 2"
  by (simp_all add: ticked_state_def Let_def)

lemma tick_closed:
  "interval s \<noteq> 0 \<Longrightarrow>
   tick clk s =
     Inr (has_ticked (ticked_state clk s), (ticked_state clk s)\<lparr>has_ticked := False\<rparr>)"
  by (simp add: tick_def tick_delta_closed)

lemma elapsed_paused: "is_paused s \<Longrightarrow> elapsed clk s = Inr (accum_time s, s)"
  by (simp add: elapsed_def)

lemma elapsed_running:
  "\<not> is_paused s \<Longrightarrow> interval s \<noteq> 0 \<Longrightarrow>
   elapsed clk s =
     Inr ((clk (reads s + 2) - t0 s) + accum_time s,
          (ticked_state clk s)\<lparr>has_ticked := False, reads := reads s + 3\<rparr>)"
  by (simp add: elapsed_def tick_closed perf_counter_def)

lemma reset_closed: "reset clk s = s\<lparr>t0 := clk (reads s), reads := reads s + 1\<rparr>"
  by (simp add: reset_def perf_counter_def)

lemma resume_closed:
  "resume clk s = s\<lparr>is_paused := False, t0 := clk (reads s + 1), reads := reads s + 2\<rparr>"
  by (simp add: resume_def reset_closed perf_counter_def)

lemma delta_closed:
  "delta clk s = (clk (reads s) - t_last s, s\<lparr>t_last := clk (reads s), reads := reads s + 1\<rparr>)"
  by (simp add: delta_def perf_counter_def)

lemma has_ticked_ticked_state:
  "has_ticked (ticked_state clk s) \<longleftrightarrow>
     has_ticked s \<or> clk (reads s) - t_last_tick s > interval s"
  by (simp add: ticked_state_def Let_def)

lemma pause_closed:
  "elapsed clk s = Inr (e, s1) \<Longrightarrow>
   pause clk s = Inr (s1\<lparr>accum_time := accum_time s + e, is_paused := True\<rparr>)"
  by (simp add: pause_def)

subsection \<open>Totality and the invariant along a sequence of calls\<close>

lemma elapsed_cases:
  assumes "interval s \<noteq> 0"
  shows "\<exists>s'. elapsed clk s
                = Inr (if is_paused s then accum_time s
                       else (clk (reads s + 2) - t0 s) + accum_time s, s') \<and>
              interval s' = interval s \<and> t0 s' = t0 s \<and> accum_time s' = accum_time s \<and>
              reads s \<le> reads s'"
proof (cases "is_paused s")
  case True
  then show ?thesis by (simp add: elapsed_paused)
next
  case False
  then show ?thesis using assms by (simp add: elapsed_running)
qed

lemma timer_inv_elapsed_nonneg:
  assumes "timer_inv clk s"
  shows "0 \<le> (if is_paused s then accum_time s else (clk (reads s + 2) - t0 s) + accum_time s)"
proof -
  from assms have "0 \<le> accum_time s" and "t0 s \<le> clk (reads s + 2)"
    by (simp_all add: timer_inv_def)
  then show ?thesis by simp
qed

lemma timer_inv_later:
  assumes "timer_inv clk s" and "t0 s' = t0 s" and "accum_time s' = accum_time s"
    and "reads s \<le> reads s'"
  shows "timer_inv clk s'"
  using assms by (simp add: timer_inv_def)

lemma timer_inv_rebase:
  assumes "mono clk" and "0 \<le> accum_time s'" and "t0 s' = clk k" and "k \<le> reads s'"
  shows "timer_inv clk s'"
  using assms by (auto simp: timer_inv_def mono_def)


lemma py_int_cases:
  "(\<exists>n. py_int q = Inr n) \<or> py_int q = Inl OverflowError \<or> py_int q = Inl ValueError"
  by (cases q) simp_all

lemma float_range_not_nan [simp]: "float_range x \<noteq> NaN"
  by (simp add: float_range_def)

lemma py_int_float_range:
  "(\<exists>n. py_int (float_range x) = Inr n) \<or> py_int (float_range x) = Inl OverflowError"
  by (simp add: float_range_def)

lemma elapsed_ticks_closed:
  assumes "interval s \<noteq> 0" and "elapsed clk s = Inr (e, s1)" and "interval s1 = interval s"
  shows "elapsed_ticks clk s = Inr (float_range (e / interval s), s1)"
    and "elapsed_ticks_int clk s
           = bind_res (py_int (float_range (e / interval s))) (\<lambda>n. Inr (n, s1))"
  using assms by (simp_all add: elapsed_ticks_int_def elapsed_ticks_def)

text \<open>
  One call on a timer whose interval is not zero: it returns and keeps the interval
  and the invariant, unless it is \<open>elapsed_ticks_int\<close> and the conversion raises.
\<close>

lemma call_step:
  assumes nz: "interval s \<noteq> 0"
  shows "(c = ElapsedTicksInt \<and> call clk c s = Inl OverflowError) \<or>
         (\<exists>v s'. call clk c s = Inr (v, s') \<and> interval s' = interval s \<and>
            (mono clk \<longrightarrow> timer_inv clk s \<longrightarrow> timer_inv clk s'))"
proof -
  let ?e = "if is_paused s then accum_time s else (clk (reads s + 2) - t0 s) + accum_time s"
  obtain s1 where e: "elapsed clk s = Inr (?e, s1)"
      and s1: "interval s1 = interval s" "t0 s1 = t0 s" "accum_time s1 = accum_time s"
        "reads s \<le> reads s1"
    using elapsed_cases [OF nz] by blast
  have keep: "timer_inv clk s \<Longrightarrow> timer_inv clk s1"
    using s1 by (auto intro: timer_inv_later)
  show ?thesis
  proof (cases c)
    case Elapsed
    then show ?thesis using e s1 keep by simp
  next
    case ElapsedTicksInt
    have q: "elapsed_ticks_int clk s
               = bind_res (py_int (float_range (?e / interval s))) (\<lambda>n. Inr (n, s1))"
      using nz e s1(1) by (rule elapsed_ticks_closed(2))
    from py_int_float_range [of "?e / interval s"] show ?thesis
    proof
      assume "\<exists>n. py_int (float_range (?e / interval s)) = Inr n"
      then obtain n where "py_int (float_range (?e / interval s)) = Inr n" ..
      with q have "call clk ElapsedTicksInt s = Inr (VInt n, s1)" by simp
      with ElapsedTicksInt s1 keep show ?thesis by simp
    next
      assume "py_int (float_range (?e / interval s)) = Inl OverflowError"
      with q have "call clk ElapsedTicksInt s = Inl OverflowError" by simp
      with ElapsedTicksInt show ?thesis by simp
    qed
  next
    case ElapsedTicks
    have "elapsed_ticks clk s = Inr (float_range (?e / interval s), s1)"
      using nz e s1(1) by (rule elapsed_ticks_closed(1))
    with ElapsedTicks s1 keep show ?thesis by simp
  next
    case TickDelta
    have "timer_inv clk s \<Longrightarrow> timer_inv clk (ticked_state clk s)"
      by (erule timer_inv_later) simp_all
    with TickDelta show ?thesis using nz by (simp add: tick_delta_closed)
  next
    case Tick
    have "timer_inv clk s \<Longrightarrow> timer_inv clk ((ticked_state clk s)\<lparr>has_ticked := False\<rparr>)"
      by (erule timer_inv_later) simp_all
    with Tick show ?thesis using nz by (simp add: tick_closed)
  next
    case Delta
    have "timer_inv clk s \<Longrightarrow>
            timer_inv clk (s\<lparr>t_last := clk (reads s), reads := reads s + 1\<rparr>)"
      by (erule timer_inv_later) simp_all
    with Delta show ?thesis by (simp add: delta_closed)
  next
    case Reset
    have "mono clk \<Longrightarrow> timer_inv clk s \<Longrightarrow> timer_inv clk (reset clk s)"
      by (rule timer_inv_rebase [where k = "reads s"])
         (simp_all add: reset_closed timer_inv_def)
    with Reset show ?thesis by (simp add: reset_closed)
  next
    case Pause
    have "timer_inv clk s \<Longrightarrow>
            timer_inv clk (s1\<lparr>accum_time := accum_time s + ?e, is_paused := True\<rparr>)"
      using timer_inv_elapsed_nonneg [of clk s] keep s1
      by (simp add: timer_inv_def)
    with Pause show ?thesis using pause_closed [OF e] s1 by simp
  next
    case Resume
    have "mono clk \<Longrightarrow> timer_inv clk s \<Longrightarrow> timer_inv clk (resume clk s)"
      by (rule timer_inv_rebase [where k = "reads s + 1"])
         (simp_all add: resume_closed timer_inv_def)
    with Resume show ?thesis by (simp add: resume_closed)
  qed
qed

lemma run_steps:
  assumes "interval s \<noteq> 0"
  shows "(ElapsedTicksInt \<in> set cs \<and> run clk cs s = Inl OverflowError) \<or>
         (\<exists>vs s'. run clk cs s = Inr (vs, s') \<and> length vs = length cs \<and>
            interval s' = interval s \<and>
            (mono clk \<longrightarrow> timer_inv clk s \<longrightarrow> timer_inv clk s'))"
  using assms
proof (induction cs arbitrary: s)
  case Nil
  then show ?case by simp
next
  case (Cons c cs)
  from call_step [OF Cons.prems, of c clk] show ?case
  proof
    assume a: "c = ElapsedTicksInt \<and> call clk c s = Inl OverflowError"
    then have "call clk c s = Inl OverflowError" ..
    then have "run clk (c # cs) s = Inl OverflowError"
      by (simp del: call.simps)
    with a show ?thesis by simp
  next
    assume "\<exists>v s'. call clk c s = Inr (v, s') \<and> interval s' = interval s \<and>
            (mono clk \<longrightarrow> timer_inv clk s \<longrightarrow> timer_inv clk s')"
    then obtain v s1 where c: "call clk c s = Inr (v, s1)" and i: "interval s1 = interval s"
        and k: "mono clk \<longrightarrow> timer_inv clk s \<longrightarrow> timer_inv clk s1"
      by blast
    from Cons.prems i have "interval s1 \<noteq> 0" by simp
    from Cons.IH [OF this] show ?thesis
    proof
      assume a: "ElapsedTicksInt \<in> set cs \<and> run clk cs s1 = Inl OverflowError"
      with c have "run clk (c # cs) s = Inl OverflowError"
        by (simp del: call.simps)
      with a show ?thesis by simp
    next
      assume "\<exists>vs s'. run clk cs s1 = Inr (vs, s') \<and> length vs = length cs \<and>
            interval s' = interval s1 \<and>
            (mono clk \<longrightarrow> timer_inv clk s1 \<longrightarrow> timer_inv clk s')"
      then obtain vs s2 where r: "run clk cs s1 = Inr (vs, s2)" and l: "length vs = length cs"
          and i2: "interval s2 = interval s1"
          and k2: "mono clk \<longrightarrow> timer_inv clk s1 \<longrightarrow> timer_inv clk s2"
        by blast
      from c r have "run clk (c # cs) s = Inr (v # vs, s2)"
        by (simp del: call.simps)
      with l i i2 k k2 show ?thesis by simp
    qed
  qed
qed

text \<open>
  The error branch is real: the constructor accepts the interval 0, and then both
  divisions raise.
\<close>

lemma zero_interval_raises:
  "tick_delta real (Timer_init real 0 False) = Inl ZeroDivisionError"
  "elapsed real (Timer_init real 0 False) = Inl ZeroDivisionError"
  "elapsed_ticks real (Timer_init real 0 True) = Inl ZeroDivisionError"
  by (simp_all add: Timer_init_def tick_delta_def tick_def elapsed_def elapsed_ticks_def
      perf_counter_def py_floordiv_def py_truediv_def Let_def)

text \<open>
  \<open>resume\<close> overwrites the origin a \<open>reset\<close> made while paused: after it the origin is
  the reading of \<open>resume\<close>'s own closing \<open>reset\<close>.
\<close>

lemma resume_after_reset: "t0 (resume clk (reset clk s)) = clk (reads s + 2)"
  by (simp add: resume_closed reset_closed eval_nat_numeral)

text \<open>The overflow bound lies between \<open>2 ^ 1023\<close> and \<open>2 ^ 1024\<close>.\<close>

lemma dbl_overflow_bounds: "2 ^ 1023 < dbl_overflow" "dbl_overflow < 2 ^ 1024"
proof -
  have a: "(2::real) ^ 1024 = 2 * 2 ^ 1023"
    by (simp add: power_Suc [symmetric] del: power_Suc)
  have b: "(2::real) ^ 970 < 2 ^ 1023"
    by (rule power_strict_increasing) simp_all
  have c: "(0::real) < 2 ^ 970" by simp
  from a b show "2 ^ 1023 < dbl_overflow" by (simp add: dbl_overflow_def)
  from c show "dbl_overflow < 2 ^ 1024" by (simp add: dbl_overflow_def)
qed

lemma float_range_small: "\<bar>x\<bar> \<le> 2 ^ 1023 \<Longrightarrow> float_range x = Fin x"
  using dbl_overflow_bounds(1) by (auto simp: float_range_def)

lemma float_range_huge: "2 ^ 1024 \<le> x \<Longrightarrow> float_range x = PInf"
  using dbl_overflow_bounds(2) by (auto simp: float_range_def)


lemma tiny_interval_quotient: "1 \<le> e \<Longrightarrow> (2::real) ^ 1024 \<le> e / (1 / 2 ^ 1074)"
proof -
  assume a: "1 \<le> e"
  have "(2::real) ^ 1024 \<le> 2 ^ 1074" by (rule power_increasing) simp_all
  also have "\<dots> \<le> e * 2 ^ 1074" using a by simp
  finally show ?thesis by simp
qed

section \<open>The claims\<close>

text \<open>
  C1. While the timer is paused, \<open>elapsed\<close> returns \<open>accumulated_time\<close> and leaves the
  object as it was, so any number of repeated calls return that same value. While the
  timer is running (and the interval is not zero, which the invariant \<open>interval > 0\<close>
  of the data model gives), \<open>elapsed\<close> returns \<open>(now - start_time) + accumulated_time\<close>,
  where \<open>now\<close> is the reading it takes after its tick bookkeeping, the third reading of
  the call.
\<close>

theorem elapsed_value:
  "(is_paused s \<longrightarrow>
      elapsed clk s = Inr (accum_time s, s) \<and>
      run clk (replicate n Elapsed) s = Inr (replicate n (VFloat (accum_time s)), s)) \<and>
   (\<not> is_paused s \<and> interval s \<noteq> 0 \<longrightarrow>
      (\<exists>s'. elapsed clk s = Inr ((clk (reads s + 2) - t0 s) + accum_time s, s')))"
proof (intro conjI impI)
  assume p: "is_paused s"
  then show "elapsed clk s = Inr (accum_time s, s)" by (rule elapsed_paused)
  show "run clk (replicate n Elapsed) s = Inr (replicate n (VFloat (accum_time s)), s)"
    by (induction n) (simp_all add: elapsed_paused [OF p])
next
  assume "\<not> is_paused s \<and> interval s \<noteq> 0"
  then show "\<exists>s'. elapsed clk s = Inr ((clk (reads s + 2) - t0 s) + accum_time s, s')"
    by (simp add: elapsed_running)
qed

theorem elapsed_value_witness:
  "elapsed real (Timer_init real (1/2) True) = Inr (0, Timer_init real (1/2) True) \<and>
   run real [Elapsed, Elapsed, Elapsed] (Timer_init real (1/2) True)
     = Inr ([VFloat 0, VFloat 0, VFloat 0], Timer_init real (1/2) True) \<and>
   (\<exists>s'. elapsed real (Timer_init real (1/2) False) = Inr (5, s'))"
  using elapsed_value [of "Timer_init real (1/2) True" real 3]
    elapsed_value [of "Timer_init real (1/2) False" real 0]
  by (simp add: Timer_init_def numeral_3_eq_3)

text \<open>
  C2. On a timer whose interval is not zero, \<open>tick_delta\<close> computes
  \<open>raw = now - last_tick_time\<close> from its first reading. If \<open>raw > interval\<close> it sets
  \<open>has_ticked\<close> and advances \<open>last_tick_time\<close> by \<open>floor (raw / interval) * interval\<close>,
  all whole intervals at once; otherwise it changes neither. It returns its second
  reading minus the (possibly advanced) \<open>last_tick_time\<close>.
\<close>

theorem tick_delta_bulk_advance:
  "interval s \<noteq> 0 \<Longrightarrow>
   (let raw = clk (reads s) - t_last_tick s;
        advanced = t_last_tick s + of_int \<lfloor>raw / interval s\<rfloor> * interval s
    in tick_delta clk s =
         (if raw > interval s
          then Inr (clk (reads s + 1) - advanced,
                    s\<lparr>has_ticked := True, t_last_tick := advanced, reads := reads s + 2\<rparr>)
          else Inr (clk (reads s + 1) - t_last_tick s, s\<lparr>reads := reads s + 2\<rparr>)))"
  by (simp add: tick_delta_closed ticked_state_def Let_def)

theorem tick_delta_bulk_advance_witness:
  "interval (Timer_init real (1/2) False) \<noteq> 0 \<and>
   tick_delta real (Timer_init real (1/2) False)
     = Inr (1, (Timer_init real (1/2) False)\<lparr>has_ticked := True, t_last_tick := 3, reads := 5\<rparr>)"
  using tick_delta_bulk_advance [of "Timer_init real (1/2) False" real]
  by (simp add: Timer_init_def Let_def)

text \<open>
  C3. That \<open>tick\<close> runs \<open>tick_delta\<close> and then reads the flag once, returning it and
  leaving it cleared, is lemma \<open>tick_closed\<close>; any number of crossed boundaries sets
  the one flag (lemma \<open>has_ticked_ticked_state\<close>). That a second \<open>tick\<close> at the same
  clock reading returns false needs the bulk advance to leave less than one interval
  between \<open>last_tick_time\<close> and the reading. The code computes the advance as a float
  product and sum, and at interval 0.1, \<open>last_tick_time\<close> 0.0 and reading 2.1 it stores
  2.0 (\<^verbatim>\<open>2.1 // 0.1\<close> is 20.0 and \<^verbatim>\<open>20.0 * 0.1\<close> rounds to 2.0). On the object the
  first call leaves there, the second call returns true: the subtraction
  \<open>2.1 - 2.0\<close> and the comparison with 0.1 are exact on these doubles, whose values are
  \<open>4728779608739021 / 2 ^ 51\<close> and \<open>3602879701896397 / 2 ^ 55\<close>.
\<close>

lemma second_tick_after_rounded_advance:
  "map_sum id fst
     (tick (\<lambda>n. 4728779608739021 / 2 ^ 51)
        \<lparr>interval = 3602879701896397 / 2 ^ 55, t0 = 0, t_last = 0, t_last_tick = 2,
         is_paused = False, has_ticked = False, accum_time = 0, reads = 5\<rparr>)
   = Inr True"
  by (simp add: tick_closed has_ticked_ticked_state)

text \<open>
  C4, as stated: every call of \<open>elapsed\<close> leaves \<open>has_ticked\<close> and \<open>last_tick_time\<close>
  as a call of \<open>tick_delta\<close> would. It fails on a timer built with interval 1/2 under
  the clock 0, 1, 2, ...: a full second separates \<open>last_tick_time = 2\<close> from the next
  reading 3. Running, \<open>tick_delta\<close> leaves \<open>has_ticked\<close> true and \<open>elapsed\<close> leaves it
  false; paused, \<open>tick_delta\<close> advances \<open>last_tick_time\<close> to 3 and sets the flag, and
  \<open>elapsed\<close> leaves the object untouched.
\<close>

theorem elapsed_bookkeeping_counterexample:
  "tick_delta real (Timer_init real (1/2) False)
     = Inr (1, \<lparr>interval = 1/2, t0 = 0, t_last = 1, t_last_tick = 3, is_paused = False,
                 has_ticked = True, accum_time = 0, reads = 5\<rparr>) \<and>
   elapsed real (Timer_init real (1/2) False)
     = Inr (5, \<lparr>interval = 1/2, t0 = 0, t_last = 1, t_last_tick = 3, is_paused = False,
                 has_ticked = False, accum_time = 0, reads = 6\<rparr>) \<and>
   tick_delta real (Timer_init real (1/2) True)
     = Inr (1, \<lparr>interval = 1/2, t0 = 0, t_last = 1, t_last_tick = 3, is_paused = True,
                 has_ticked = True, accum_time = 0, reads = 5\<rparr>) \<and>
   elapsed real (Timer_init real (1/2) True)
     = Inr (0, \<lparr>interval = 1/2, t0 = 0, t_last = 1, t_last_tick = 2, is_paused = True,
                 has_ticked = False, accum_time = 0, reads = 3\<rparr>)"
  by (simp add: Timer_init_def elapsed_def tick_def tick_delta_def perf_counter_def Let_def)

text \<open>
  C4, amended. In the Running state (interval not zero) \<open>elapsed\<close> performs the
  boundary check of \<open>tick_delta\<close>: \<open>last_tick_time\<close> ends as a call of \<open>tick_delta\<close>
  would leave it. The value returned is \<open>(now - start_time) + accumulated_time\<close>
  whatever the tick fields hold. In the Paused state \<open>elapsed\<close> returns before any
  tick bookkeeping and leaves the object as it was.
\<close>

theorem elapsed_tick_bookkeeping:
  "(is_paused s \<longrightarrow> elapsed clk s = Inr (accum_time s, s)) \<and>
   (\<not> is_paused s \<and> interval s \<noteq> 0 \<longrightarrow>
      (\<exists>d s1 s2. tick_delta clk s = Inr (d, s1) \<and>
         elapsed clk s = Inr ((clk (reads s + 2) - t0 s) + accum_time s, s2) \<and>
         t_last_tick s2 = t_last_tick s1 \<and>
         (\<forall>x b. \<exists>s3. elapsed clk (s\<lparr>t_last_tick := x, has_ticked := b\<rparr>)
                        = Inr ((clk (reads s + 2) - t0 s) + accum_time s, s3))))"
proof (intro conjI impI)
  assume "is_paused s"
  then show "elapsed clk s = Inr (accum_time s, s)" by (rule elapsed_paused)
next
  assume "\<not> is_paused s \<and> interval s \<noteq> 0"
  then have run: "\<not> is_paused s" and nz: "interval s \<noteq> 0" by simp_all
  let ?v = "(clk (reads s + 2) - t0 s) + accum_time s"
  have a: "tick_delta clk s
             = Inr (clk (reads s + 1) - t_last_tick (ticked_state clk s), ticked_state clk s)"
    using nz by (rule tick_delta_closed)
  have b: "elapsed clk s
             = Inr (?v, (ticked_state clk s)\<lparr>has_ticked := False, reads := reads s + 3\<rparr>)"
    using run nz by (rule elapsed_running)
  have c: "\<exists>s3. elapsed clk (s\<lparr>t_last_tick := x, has_ticked := b\<rparr>) = Inr (?v, s3)" for x b
    using run nz by (simp add: elapsed_running)
  from a b c show "\<exists>d s1 s2. tick_delta clk s = Inr (d, s1) \<and>
         elapsed clk s = Inr (?v, s2) \<and> t_last_tick s2 = t_last_tick s1 \<and>
         (\<forall>x b. \<exists>s3. elapsed clk (s\<lparr>t_last_tick := x, has_ticked := b\<rparr>) = Inr (?v, s3))"
    by simp
qed

theorem elapsed_tick_bookkeeping_witness:
  "elapsed real (Timer_init real (1/2) True) = Inr (0, Timer_init real (1/2) True) \<and>
   (\<exists>d s1 s2. tick_delta real (Timer_init real (1/2) False) = Inr (d, s1) \<and>
      elapsed real (Timer_init real (1/2) False) = Inr (5, s2) \<and>
      t_last_tick s2 = t_last_tick s1 \<and>
      (\<forall>x b. \<exists>s3. elapsed real ((Timer_init real (1/2) False)\<lparr>t_last_tick := x, has_ticked := b\<rparr>)
                     = Inr (5, s3)))"
  using elapsed_tick_bookkeeping [of "Timer_init real (1/2) True" real]
    elapsed_tick_bookkeeping [of "Timer_init real (1/2) False" real]
  by (simp add: Timer_init_def)

text \<open>
  C5. \<open>pause\<close> adds the value \<open>elapsed\<close> returns to \<open>accumulated_time\<close> and then sets
  \<open>is_paused\<close>; \<open>elapsed\<close> returns whenever the interval is not zero or the timer is
  paused. Hence on a timer that is already paused with banked value \<open>a\<close>, \<open>pause\<close>
  leaves it paused with \<open>accumulated_time = 2 * a\<close> and changes nothing else.
\<close>

theorem pause_banks_elapsed:
  "(interval s \<noteq> 0 \<or> is_paused s \<longrightarrow>
      (\<exists>e s1. elapsed clk s = Inr (e, s1) \<and>
         pause clk s = Inr (s1\<lparr>accum_time := accum_time s + e, is_paused := True\<rparr>))) \<and>
   (is_paused s \<longrightarrow>
      pause clk s = Inr (s\<lparr>accum_time := 2 * accum_time s\<rparr>) \<and>
      is_paused (s\<lparr>accum_time := 2 * accum_time s\<rparr>))"
proof (intro conjI impI)
  assume "interval s \<noteq> 0 \<or> is_paused s"
  then obtain e s1 where e: "elapsed clk s = Inr (e, s1)"
    by (cases "is_paused s") (auto simp: elapsed_paused elapsed_running)
  then show "\<exists>e s1. elapsed clk s = Inr (e, s1) \<and>
         pause clk s = Inr (s1\<lparr>accum_time := accum_time s + e, is_paused := True\<rparr>)"
    by (auto simp: pause_closed)
next
  assume p: "is_paused s"
  have "s\<lparr>accum_time := accum_time s + accum_time s, is_paused := True\<rparr>
          = s\<lparr>accum_time := 2 * accum_time s\<rparr>"
    using p by (cases s) simp
  then show "pause clk s = Inr (s\<lparr>accum_time := 2 * accum_time s\<rparr>)"
    using pause_closed [OF elapsed_paused [OF p]] by simp
  show "is_paused (s\<lparr>accum_time := 2 * accum_time s\<rparr>)"
    using p by simp
qed

theorem pause_banks_elapsed_witness:
  "(\<exists>e s1. elapsed real (Timer_init real (1/2) False) = Inr (e, s1) \<and>
      pause real (Timer_init real (1/2) False) = Inr (s1\<lparr>accum_time := 0 + e, is_paused := True\<rparr>)) \<and>
   pause real \<lparr>interval = 1, t0 = 0, t_last = 0, t_last_tick = 0, is_paused = True,
               has_ticked = False, accum_time = 3/10, reads = 6\<rparr>
     = Inr \<lparr>interval = 1, t0 = 0, t_last = 0, t_last_tick = 0, is_paused = True,
            has_ticked = False, accum_time = 6/10, reads = 6\<rparr>"
  using pause_banks_elapsed [of "Timer_init real (1/2) False" real]
    pause_banks_elapsed [of "\<lparr>interval = 1, t0 = 0, t_last = 0, t_last_tick = 0,
       is_paused = True, has_ticked = False, accum_time = 3/10, reads = 6\<rparr>" real]
  by (simp add: Timer_init_def)

text \<open>
  C6. \<open>resume\<close> clears \<open>is_paused\<close> and rebases \<open>start_time\<close> to the current clock
  reading (the reading of the closing \<open>reset\<close>, the second of the call); it leaves
  \<open>accumulated_time\<close> alone. So with banked value \<open>a\<close>, a call of \<open>elapsed\<close> made
  \<open>t\<close> seconds after the rebasing reading returns \<open>a + t\<close> (interval not zero).
\<close>

theorem resume_keeps_banked_time:
  "resume clk s = s\<lparr>is_paused := False, t0 := clk (reads s + 1), reads := reads s + 2\<rparr> \<and>
   \<not> is_paused (resume clk s) \<and>
   t0 (resume clk s) = clk (reads s + 1) \<and>
   accum_time (resume clk s) = accum_time s \<and>
   (interval s \<noteq> 0 \<longrightarrow>
      (\<exists>s'. elapsed clk (resume clk s)
               = Inr (accum_time s + (clk (reads s + 4) - clk (reads s + 1)), s')))"
  by (simp add: resume_closed elapsed_running eval_nat_numeral)

theorem resume_keeps_banked_time_witness:
  "resume (\<lambda>n. if n < 3 then 0 else if n < 6 then 2/10 else if n < 8 then 7/10 else 1)
     \<lparr>interval = 1, t0 = 0, t_last = 0, t_last_tick = 0, is_paused = True,
      has_ticked = False, accum_time = 2/10, reads = 6\<rparr>
     = \<lparr>interval = 1, t0 = 7/10, t_last = 0, t_last_tick = 0, is_paused = False,
        has_ticked = False, accum_time = 2/10, reads = 8\<rparr> \<and>
   (\<exists>s'. elapsed (\<lambda>n. if n < 3 then 0 else if n < 6 then 2/10 else if n < 8 then 7/10 else 1)
            (resume (\<lambda>n. if n < 3 then 0 else if n < 6 then 2/10 else if n < 8 then 7/10 else 1)
               \<lparr>interval = 1, t0 = 0, t_last = 0, t_last_tick = 0, is_paused = True,
                has_ticked = False, accum_time = 2/10, reads = 6\<rparr>) = Inr (5/10, s'))"
  using resume_keeps_banked_time
    [of "\<lambda>n. if n < 3 then 0 else if n < 6 then 2/10 else if n < 8 then 7/10 else 1"
        "\<lparr>interval = 1, t0 = 0, t_last = 0, t_last_tick = 0, is_paused = True,
          has_ticked = False, accum_time = 2/10, reads = 6\<rparr>"]
  by (simp add: resume_closed)

text \<open>
  C7. \<open>reset\<close> sets \<open>start_time\<close> to the current clock reading and changes no other
  attribute. On a running timer (interval not zero) a following \<open>elapsed\<close> returns
  \<open>accumulated_time\<close> plus the time since the reset, so \<open>accumulated_time\<close> itself when
  no time has passed. On a paused timer \<open>elapsed\<close> returns \<open>accumulated_time\<close> after the
  reset as before it.
\<close>

theorem reset_only_rebases:
  "reset clk s = s\<lparr>t0 := clk (reads s), reads := reads s + 1\<rparr> \<and>
   t0 (reset clk s) = clk (reads s) \<and>
   interval (reset clk s) = interval s \<and>
   accum_time (reset clk s) = accum_time s \<and>
   is_paused (reset clk s) = is_paused s \<and>
   t_last (reset clk s) = t_last s \<and>
   t_last_tick (reset clk s) = t_last_tick s \<and>
   has_ticked (reset clk s) = has_ticked s \<and>
   (\<not> is_paused s \<and> interval s \<noteq> 0 \<longrightarrow>
      (\<exists>s'. elapsed clk (reset clk s)
               = Inr (accum_time s + (clk (reads s + 3) - clk (reads s)), s'))) \<and>
   (is_paused s \<longrightarrow>
      elapsed clk s = Inr (accum_time s, s) \<and>
      elapsed clk (reset clk s) = Inr (accum_time s, reset clk s))"
  by (simp add: reset_closed elapsed_running elapsed_paused eval_nat_numeral)

theorem reset_only_rebases_witness:
  "reset (\<lambda>n. if n < 3 then 0 else 4)
     \<lparr>interval = 1, t0 = 0, t_last = 0, t_last_tick = 0, is_paused = False,
      has_ticked = False, accum_time = 2, reads = 3\<rparr>
     = \<lparr>interval = 1, t0 = 4, t_last = 0, t_last_tick = 0, is_paused = False,
        has_ticked = False, accum_time = 2, reads = 4\<rparr> \<and>
   (\<exists>s'. elapsed (\<lambda>n. if n < 3 then 0 else 4)
            (reset (\<lambda>n. if n < 3 then 0 else 4)
               \<lparr>interval = 1, t0 = 0, t_last = 0, t_last_tick = 0, is_paused = False,
                has_ticked = False, accum_time = 2, reads = 3\<rparr>) = Inr (2, s')) \<and>
   elapsed real (reset real (Timer_init real 1 True)) = Inr (0, reset real (Timer_init real 1 True))"
  using reset_only_rebases
    [of "\<lambda>n. if n < 3 then 0 else 4"
        "\<lparr>interval = 1, t0 = 0, t_last = 0, t_last_tick = 0, is_paused = False,
          has_ticked = False, accum_time = 2, reads = 3\<rparr>"]
    reset_only_rebases [of real "Timer_init real 1 True"]
  by (simp add: Timer_init_def reset_closed)






text \<open>
  C9, as stated: with a positive interval and a monotonic clock no operation fails.
  It fails on a timer built with the interval \<open>2 ^ -1074\<close> under the clock 0, 1, 2, ...:
  the first call of \<open>elapsed_ticks_int\<close> raises \<^verbatim>\<open>OverflowError\<close>, because
  \<open>elapsed / interval\<close> is the infinity.
\<close>

theorem no_call_fails_counterexample:
  "mono real \<and> 0 < interval (Timer_init real (1 / 2 ^ 1074) False) \<and>
   map_sum id fst (elapsed_ticks real (Timer_init real (1 / 2 ^ 1074) False)) = Inr PInf \<and>
   elapsed_ticks_int real (Timer_init real (1 / 2 ^ 1074) False) = Inl OverflowError \<and>
   call real ElapsedTicksInt (Timer_init real (1 / 2 ^ 1074) False) = Inl OverflowError"
proof -
  let ?s = "Timer_init real (1 / 2 ^ 1074) False"
  have m: "mono real" by (simp add: mono_def)
  have i: "interval ?s = 1 / 2 ^ 1074" by (simp add: Timer_init_def)
  have e: "elapsed real ?s
             = Inr (5, (ticked_state real ?s)\<lparr>has_ticked := False, reads := reads ?s + 3\<rparr>)"
    using elapsed_running [of ?s real] by (simp add: Timer_init_def)
  have q: "float_range (5 / interval ?s) = PInf"
    unfolding i by (rule float_range_huge, rule tiny_interval_quotient) simp
  have t: "elapsed_ticks real ?s
             = Inr (PInf, (ticked_state real ?s)\<lparr>has_ticked := False, reads := reads ?s + 3\<rparr>)"
    using elapsed_ticks_closed(1) [OF _ e] q i by simp
  have n: "elapsed_ticks_int real ?s = Inl OverflowError"
    using elapsed_ticks_closed(2) [OF _ e] q i by simp
  from m i t n show ?thesis by simp
qed

text \<open>
  C9, amended. With a positive interval no call raises \<^verbatim>\<open>ZeroDivisionError\<close>: the
  divisions by \<open>interval\<close> in \<open>tick_delta\<close> and \<open>elapsed_ticks\<close> never divide by zero,
  and every sequence of calls without \<open>elapsed_ticks_int\<close> runs to its end, returns
  one value per call and leaves the interval as it was. \<open>elapsed_ticks\<close> itself
  returns, and \<open>elapsed_ticks_int\<close> fails exactly when \<open>int()\<close> fails on the float
  \<open>elapsed_ticks\<close> returns, which is when that float is not finite. The constructor
  stores whatever interval it is given. No assumption on the clock is needed.
\<close>

theorem calls_fail_only_in_int:
  assumes "0 < interval s"
  shows "run clk cs s \<noteq> Inl ZeroDivisionError \<and>
         (ElapsedTicksInt \<notin> set cs \<longrightarrow>
            (\<exists>vs s'. run clk cs s = Inr (vs, s') \<and> length vs = length cs \<and>
               interval s' = interval s)) \<and>
         (\<exists>q s'. elapsed_ticks clk s = Inr (q, s') \<and>
            elapsed_ticks_int clk s = bind_res (py_int q) (\<lambda>n. Inr (n, s')) \<and>
            ((\<exists>n. elapsed_ticks_int clk s = Inr (n, s')) \<longleftrightarrow> (\<exists>x. q = Fin x)))"
proof -
  from assms have nz: "interval s \<noteq> 0" by simp
  note r = run_steps [OF nz, of cs clk]
  have a: "run clk cs s \<noteq> Inl ZeroDivisionError"
    using r by auto
  have b: "ElapsedTicksInt \<notin> set cs \<longrightarrow>
            (\<exists>vs s'. run clk cs s = Inr (vs, s') \<and> length vs = length cs \<and>
               interval s' = interval s)"
    using r by blast
  obtain e s1 where e: "elapsed clk s = Inr (e, s1)" and i: "interval s1 = interval s"
    using elapsed_cases [OF nz, of clk] by blast
  let ?q = "float_range (e / interval s)"
  have t: "elapsed_ticks clk s = Inr (?q, s1)"
    using nz e i by (rule elapsed_ticks_closed(1))
  have n: "elapsed_ticks_int clk s = bind_res (py_int ?q) (\<lambda>n. Inr (n, s1))"
    using nz e i by (rule elapsed_ticks_closed(2))
  have c: "(\<exists>n. elapsed_ticks_int clk s = Inr (n, s1)) \<longleftrightarrow> (\<exists>x. ?q = Fin x)"
    unfolding n by (cases ?q) simp_all
  from a b t n c show ?thesis by blast
qed

theorem calls_fail_only_in_int_witness:
  "0 < interval (Timer_init real (1/2) False) \<and>
   run real [Elapsed, ElapsedTicks, TickDelta, Tick, Delta, Reset, Pause, Resume]
     (Timer_init real (1/2) False) \<noteq> Inl ZeroDivisionError \<and>
   (\<exists>vs s'. run real [Elapsed, ElapsedTicks, TickDelta, Tick, Delta, Reset, Pause, Resume]
               (Timer_init real (1/2) False) = Inr (vs, s') \<and>
      length vs = 8 \<and> interval s' = 1/2) \<and>
   (\<exists>q s'. elapsed_ticks real (Timer_init real (1/2) False) = Inr (q, s') \<and>
      elapsed_ticks_int real (Timer_init real (1/2) False)
        = bind_res (py_int q) (\<lambda>n. Inr (n, s')) \<and>
      ((\<exists>n. elapsed_ticks_int real (Timer_init real (1/2) False) = Inr (n, s'))
         \<longleftrightarrow> (\<exists>x. q = Fin x)))"
proof -
  let ?cs = "[Elapsed, ElapsedTicks, TickDelta, Tick, Delta, Reset, Pause, Resume]"
  have h: "0 < interval (Timer_init real (1/2) False)"
    by (simp add: Timer_init_def)
  have i: "interval (Timer_init real (1/2) False) = 1/2"
    by (simp add: Timer_init_def)
  have m: "ElapsedTicksInt \<notin> set ?cs" by simp
  have l: "length ?cs = 8" by simp
  from calls_fail_only_in_int [OF h, of real ?cs] m h show ?thesis
    unfolding i l by blast
qed

end
